theory Spec2Isabelle
  imports Main
begin

section \<open>Python values, failures and string primitives\<close>

text \<open>
  The scraper (\<^verbatim>\<open>src/scraper.py\<close>) works on the text of page elements. A Python
  string is modelled as a \<^typ>\<open>string\<close> whose characters are the code points 0..255;
  the character classes below are those of Python on that range. An exception that leaves
  a function is a value \<open>Inl e\<close> of the result.
\<close>

datatype py_error = ValueError | IndexError | TypeError | TimeoutException

text \<open>A cell of a data-frame row: \<^verbatim>\<open>None\<close>, \<^verbatim>\<open>np.nan\<close>, an int or a str.\<close>

datatype pyval = PNone | PNaN | PInt int | PStr string

definition py_isspace :: "char \<Rightarrow> bool" where
  \<comment> \<open>the separators of \<^verbatim>\<open>str.split()\<close>\<close>
  "py_isspace c = (let n = (of_char c :: nat) in
     (9 \<le> n \<and> n \<le> 13) \<or> (28 \<le> n \<and> n \<le> 32) \<or> n = 133 \<or> n = 160)"

definition py_isupper :: "char \<Rightarrow> bool" where
  \<comment> \<open>\<^verbatim>\<open>c.isupper()\<close> for a single character\<close>
  "py_isupper c = (let n = (of_char c :: nat) in
     (65 \<le> n \<and> n \<le> 90) \<or> (192 \<le> n \<and> n \<le> 214) \<or> (216 \<le> n \<and> n \<le> 222))"

definition py_isnumeric_char :: "char \<Rightarrow> bool" where
  "py_isnumeric_char c = (let n = (of_char c :: nat) in
     (48 \<le> n \<and> n \<le> 57) \<or> n = 178 \<or> n = 179 \<or> n = 185 \<or> (188 \<le> n \<and> n \<le> 190))"

definition py_isnumeric :: "string \<Rightarrow> bool" where
  \<comment> \<open>\<^verbatim>\<open>s.isnumeric()\<close>: at least one character, all of them numeric\<close>
  "py_isnumeric s = (s \<noteq> [] \<and> list_all py_isnumeric_char s)"

definition is_decimal :: "char \<Rightarrow> bool" where
  "is_decimal c = (let n = (of_char c :: nat) in 48 \<le> n \<and> n \<le> 57)"

definition int_isspace :: "char \<Rightarrow> bool" where
  \<comment> \<open>the blanks \<^verbatim>\<open>int()\<close> strips from both ends of its argument\<close>
  "int_isspace c = (let n = (of_char c :: nat) in
     (9 \<le> n \<and> n \<le> 13) \<or> n = 32 \<or> n = 133 \<or> n = 160)"

fun digit_group :: "string \<Rightarrow> bool" where
  \<comment> \<open>decimal digits, single underscores allowed between two digits\<close>
  "digit_group [] = False"
| "digit_group [c] = is_decimal c"
| "digit_group (c # d # cs) =
     (is_decimal c \<and> (if d = CHR ''_'' then digit_group cs else digit_group (d # cs)))"

definition digits_value :: "string \<Rightarrow> int" where
  "digits_value s =
     foldl (\<lambda>acc c. if c = CHR ''_'' then acc else 10 * acc + (int (of_char c) - 48)) 0 s"

definition py_int_str :: "string \<Rightarrow> py_error + int" where
  \<comment> \<open>\<^verbatim>\<open>int(s)\<close> for a str, base 10 (the interpreter's optional limit on the number of
      digits is not part of the model)\<close>
  "py_int_str s =
     (let t = rev (dropWhile int_isspace (rev (dropWhile int_isspace s)))
      in (case t of
            [] \<Rightarrow> Inl ValueError
          | c # cs \<Rightarrow>
              if c = CHR ''+'' then (if digit_group cs then Inr (digits_value cs) else Inl ValueError)
              else if c = CHR ''-'' then (if digit_group cs then Inr (- digits_value cs) else Inl ValueError)
              else if digit_group t then Inr (digits_value t) else Inl ValueError))"

fun py_int :: "pyval \<Rightarrow> py_error + int" where
  "py_int (PInt i) = Inr i"
| "py_int (PStr s) = py_int_str s"
| "py_int PNone = Inl TypeError"
| "py_int PNaN = Inl ValueError"

fun split_from :: "string \<Rightarrow> string \<Rightarrow> string list" where
  \<comment> \<open>\<open>split_from cur s\<close>: \<open>cur\<close> is the token being read\<close>
  "split_from cur [] = (if cur = [] then [] else [cur])"
| "split_from cur (c # cs) =
     (if py_isspace c then (if cur = [] then split_from [] cs else cur # split_from [] cs)
      else split_from (cur @ [c]) cs)"

definition py_split :: "string \<Rightarrow> string list" where
  \<comment> \<open>\<^verbatim>\<open>s.split()\<close>: the maximal runs of non-blank characters\<close>
  "py_split s = split_from [] s"

fun py_join :: "string \<Rightarrow> string list \<Rightarrow> string" where
  \<comment> \<open>\<^verbatim>\<open>sep.join(xs)\<close>\<close>
  "py_join sep [] = []"
| "py_join sep [x] = x"
| "py_join sep (x # y # ys) = x @ sep @ py_join sep (y # ys)"

fun list_remove :: "'a \<Rightarrow> 'a list \<Rightarrow> py_error + 'a list" where
  \<comment> \<open>\<^verbatim>\<open>xs.remove(x)\<close>: deletes the first occurrence, ValueError when there is none\<close>
  "list_remove x [] = Inl ValueError"
| "list_remove x (y # ys) =
     (if y = x then Inr ys
      else case list_remove x ys of Inl e \<Rightarrow> Inl e | Inr zs \<Rightarrow> Inr (y # zs))"

definition list_insert :: "nat \<Rightarrow> 'a \<Rightarrow> 'a list \<Rightarrow> 'a list" where
  \<comment> \<open>\<^verbatim>\<open>xs.insert(i, x)\<close> for \<open>i \<ge> 0\<close>; past the end it appends\<close>
  "list_insert i x xs = take i xs @ [x] @ drop i xs"

section \<open>Status and date of a game\<close>

text \<open>
  \<^verbatim>\<open>get_game_status_date\<close> (scraper.py 243-253). \<open>status_date_tokens\<close> is its body
  after \<^verbatim>\<open>sad_webelement.text.split()\<close>.
\<close>

definition status_date_tokens :: "string list \<Rightarrow> py_error + string list" where
  "status_date_tokens sad_data =
     (if count_list sad_data ''CANCELLED'' \<ge> 1
      then Inr [''CANCELLED'', ''CANCELLED'', ''CANCELLED'']
      else list_remove ''-'' sad_data)"

definition get_game_status_date :: "string \<Rightarrow> py_error + string list" where
  "get_game_status_date text = status_date_tokens (py_split text)"

section \<open>Score data of a game\<close>

text \<open>The local variables of \<^verbatim>\<open>get_score_data\<close> (scraper.py 263-341).\<close>

record score_vars =
  away_team_name :: pyval
  home_team_name :: pyval
  away_record :: pyval
  home_record :: pyval
  away_score :: pyval
  home_score :: pyval
  away_win :: pyval
  home_win :: pyval
  away_seeding :: pyval
  home_seeding :: pyval
  is_postseason :: pyval

definition initial_vars :: score_vars where
  "initial_vars =
     \<lparr> away_team_name = PNone, home_team_name = PNone,
       away_record = PNaN, home_record = PNaN,
       away_score = PInt 0, home_score = PInt 0,
       away_win = PInt 0, home_win = PInt 0,
       away_seeding = PNaN, home_seeding = PNaN,
       is_postseason = PInt 0 \<rparr>"

definition upper_initial :: "string \<Rightarrow> bool" where
  \<comment> \<open>\<^verbatim>\<open>t[0].isupper()\<close> on a non-empty token\<close>
  "upper_initial t = (case t of [] \<Rightarrow> False | c # _ \<Rightarrow> py_isupper c)"

fun merge_words :: "string list \<Rightarrow> string list \<Rightarrow> string list \<Rightarrow> py_error + string list" where
  \<comment> \<open>the first loop: \<open>merge_words scores_data multi_word_team_name clean_scores_data\<close>\<close>
  "merge_words [] multi clean = Inr clean"
| "merge_words (t # ts) multi clean =
     (case t of
        [] \<Rightarrow> Inl IndexError
      | c # _ \<Rightarrow>
          if py_isupper c then merge_words ts (multi @ [t]) clean
          else if length multi > 0
               then merge_words ts [] ((clean @ [py_join '' '' multi]) @ [t])
               else merge_words ts multi (clean @ [t]))"

definition postseason_check ::
  "string list \<Rightarrow> string list \<Rightarrow> score_vars \<Rightarrow> py_error + (string list \<times> string list \<times> score_vars)" where
  "postseason_check away_team home_team v =
     (case away_team of
        [] \<Rightarrow> Inl IndexError
      | a # as \<Rightarrow>
          if py_isnumeric a
          then (case home_team of
                  [] \<Rightarrow> Inl IndexError
                | h # hs \<Rightarrow>
                    Inr (as, hs, v\<lparr> is_postseason := PInt 1,
                                     away_seeding := PStr a, home_seeding := PStr h \<rparr>))
          else Inr (away_team, home_team, v))"

definition team_names ::
  "string list \<Rightarrow> string list \<Rightarrow> score_vars \<Rightarrow> py_error + (string list \<times> string list \<times> score_vars)" where
  "team_names away_team home_team v =
     (case away_team of
        [] \<Rightarrow> Inl IndexError
      | a # as \<Rightarrow>
          (case home_team of
             [] \<Rightarrow> Inl IndexError
           | h # hs \<Rightarrow> Inr (as, hs, v\<lparr> away_team_name := PStr a, home_team_name := PStr h \<rparr>)))"

fun scores_and_records :: "string list \<Rightarrow> string list \<Rightarrow> score_vars \<Rightarrow> py_error + score_vars" where
  \<comment> \<open>the second loop (scraper.py 319-327), one token of each side per iteration\<close>
  "scores_and_records [] home_team v = Inr v"
| "scores_and_records (a # as) home_team v =
     (case home_team of
        [] \<Rightarrow> Inl IndexError
      | h # hs \<Rightarrow>
          if py_isnumeric a
          then scores_and_records as hs (v\<lparr> away_score := PStr a, home_score := PStr h \<rparr>)
          else scores_and_records as hs (v\<lparr> away_record := PStr a, home_record := PStr h \<rparr>))"

definition win_check :: "score_vars \<Rightarrow> py_error + score_vars" where
  "win_check v =
     (case py_int (away_score v) of
        Inl e \<Rightarrow> Inl e
      | Inr a \<Rightarrow>
          (case py_int (home_score v) of
             Inl e \<Rightarrow> Inl e
           | Inr h \<Rightarrow>
               if a > h then Inr (v\<lparr> away_win := PInt 1, home_win := PInt 0 \<rparr>)
               else if a < h then Inr (v\<lparr> away_win := PInt 0, home_win := PInt 1 \<rparr>)
               else Inr v))"

definition organized_game_data :: "score_vars \<Rightarrow> pyval list" where
  "organized_game_data v =
     [away_team_name v, away_record v, away_score v, away_win v,
      home_team_name v, home_record v, home_score v, home_win v,
      away_seeding v, home_seeding v, is_postseason v]"

definition score_data_tokens :: "string list \<Rightarrow> py_error + pyval list" where
  \<comment> \<open>the body of \<^verbatim>\<open>get_score_data\<close> after \<^verbatim>\<open>scores_webelement.text.split()\<close>\<close>
  "score_data_tokens scores_data =
     (case merge_words scores_data [] [] of
        Inl e \<Rightarrow> Inl e
      | Inr clean_scores_data \<Rightarrow>
          let data_split = length clean_scores_data div 2;
              away_team = take data_split clean_scores_data;
              home_team = drop data_split clean_scores_data
          in (case postseason_check away_team home_team initial_vars of
                Inl e \<Rightarrow> Inl e
              | Inr (away1, home1, v1) \<Rightarrow>
                  (case team_names away1 home1 v1 of
                     Inl e \<Rightarrow> Inl e
                   | Inr (away2, home2, v2) \<Rightarrow>
                       (case scores_and_records away2 home2 v2 of
                          Inl e \<Rightarrow> Inl e
                        | Inr v3 \<Rightarrow>
                            (case win_check v3 of
                               Inl e \<Rightarrow> Inl e
                             | Inr v4 \<Rightarrow> Inr (organized_game_data v4))))))"

definition get_score_data :: "string \<Rightarrow> py_error + pyval list" where
  "get_score_data text = score_data_tokens (py_split text)"

section \<open>Opening the scores page at a season and week\<close>

text \<open>
  \<^verbatim>\<open>select_year_and_week\<close> (scraper.py 78-97). The two dropdown selections are made by
  \<^verbatim>\<open>wait.until(dropdown_search_and_select(...))\<close>, whose code (module
  \<^verbatim>\<open>custom_conditions\<close> and the browser driver) is outside the repository's sources:
  what each selection does in each invocation is a parameter of the model. Invocation
  \<open>k\<close> of the method reads \<open>env k\<close>. The method returns \<^verbatim>\<open>None\<close> on every path that
  does not raise; the paths differ in what they print, so the model returns the trace of
  the page actions and printed messages together with the result.
\<close>

datatype select_outcome = Selected | RaisesStale | RaisesNoSuchElement | RaisesTimeout

record attempt_env =
  on_scores_page :: bool
  season_select :: select_outcome
  week_select :: select_outcome

datatype event =
    OpenScoresPage
  | SelectSeason string
  | SelectWeek string
  | PrintSearching int
  | PrintUnable
  | PrintNotAnOption

definition select_both :: "attempt_env \<Rightarrow> string \<Rightarrow> string \<Rightarrow> event list \<times> select_outcome" where
  \<comment> \<open>the body of the \<^verbatim>\<open>try\<close>: the week is selected only after the season was\<close>
  "select_both a chosen_year chosen_week =
     (if season_select a = Selected
      then ([SelectSeason chosen_year, SelectWeek chosen_week], week_select a)
      else ([SelectSeason chosen_year], season_select a))"

definition open_if_needed :: "attempt_env \<Rightarrow> event list" where
  "open_if_needed a = (if on_scores_page a then [] else [OpenScoresPage])"

function select_year_and_week ::
  "(nat \<Rightarrow> attempt_env) \<Rightarrow> nat \<Rightarrow> string \<Rightarrow> string \<Rightarrow> int \<Rightarrow> event list \<times> (py_error + unit)" where
  "select_year_and_week env k chosen_year chosen_week max_attempts =
     (let tried = open_if_needed (env k) @ fst (select_both (env k) chosen_year chosen_week)
      in (case snd (select_both (env k) chosen_year chosen_week) of
            Selected \<Rightarrow> (tried, Inr ())
          | RaisesStale \<Rightarrow>
              if max_attempts > 0
              then (let again = select_year_and_week env (Suc k) chosen_year chosen_week
                                  (max_attempts - 1)
                    in (tried @ [PrintSearching max_attempts] @ fst again, snd again))
              else (tried @ [PrintUnable], Inr ())
          | RaisesNoSuchElement \<Rightarrow> (tried @ [PrintNotAnOption], Inr ())
          | RaisesTimeout \<Rightarrow> (tried, Inl TimeoutException)))"
  by pat_completeness auto
termination
  by (relation "measure (\<lambda>(env, k, y, w, n). nat n)") auto

definition default_max_attempts :: int where
  \<comment> \<open>\<^verbatim>\<open>max_attempts=5\<close> in the signatures\<close>
  "default_max_attempts = 5"

definition invocations :: "event list \<Rightarrow> nat" where
  \<comment> \<open>every invocation of the method attempts the season selection exactly once\<close>
  "invocations tr = length (filter (\<lambda>ev. case ev of SelectSeason _ \<Rightarrow> True | _ \<Rightarrow> False) tr)"

section \<open>The games and byes of a week\<close>

definition num_score_elements :: "string \<Rightarrow> nat" where
  \<comment> \<open>scraper.py 202-211\<close>
  "num_score_elements chosen_week =
     (if chosen_week \<in> set [''Hall Of Fame'', ''Pro Bowl'', ''Super Bowl''] then 4
      else if chosen_week \<in> set [''Conference Championships''] then 5
      else if chosen_week \<in> set [''Divisional Playoffs''] then 7
      else if chosen_week \<in> set [''Wild Card Weekend''] then 7
      else 19)"

text \<open>
  An element of the page is modelled by what the loop reads from it: the texts of its
  sub-elements, \<open>None\<close> where \<^verbatim>\<open>find_element\<close> raises \<^verbatim>\<open>NoSuchElementException\<close>.
  \<open>game\<close> is \<^verbatim>\<open>./div/div/button/div\<close>, with children \<^verbatim>\<open>./div[1]\<close> and
  \<^verbatim>\<open>./div[2]/div\<close>; \<open>bye_text\<close> is the text of \<^verbatim>\<open>.//button/div[1]\<close>.
\<close>

record game_element =
  status_and_date_text :: "string option"
  score_text :: "string option"

record entry_element =
  game :: "game_element option"
  bye_text :: "string option"

definition columns :: "string list" where
  "columns = [''Season'', ''Week'', ''GameStatus'', ''Day'', ''Date'',
              ''AwayTeam'', ''AwayRecord'', ''AwayScore'', ''AwayWin'',
              ''HomeTeam'', ''HomeRecord'', ''HomeScore'', ''HomeWin'',
              ''AwaySeeding'', ''HomeSeeding'', ''PostSeason?'']"

definition df_append :: "pyval list list \<Rightarrow> pyval list \<Rightarrow> py_error + pyval list list" where
  \<comment> \<open>\<^verbatim>\<open>df.loc[len(df)] = row\<close>: a row of another length than the columns is refused\<close>
  "df_append df row = (if length row = length columns then Inr (df @ [row]) else Inl ValueError)"

definition py_slice :: "int \<Rightarrow> int \<Rightarrow> 'a list \<Rightarrow> 'a list" where
  \<comment> \<open>\<^verbatim>\<open>xs[i:j]\<close>: a negative bound counts from the end, both are clipped\<close>
  "py_slice i j xs =
     (let n = int (length xs);
          a = (if i < 0 then max 0 (n + i) else min n i);
          b = (if j < 0 then max 0 (n + j) else min n j)
      in take (nat (b - a)) (drop (nat a) xs))"

definition bye_week_row :: "string \<Rightarrow> string \<Rightarrow> string \<Rightarrow> py_error + pyval list" where
  \<comment> \<open>scraper.py 371-381\<close>
  "bye_week_row chosen_year chosen_week text =
     (let bye_week = replicate 7 PNaN;
          bye_data = py_split text;
          bye_week = list_insert 0 (PStr chosen_year) bye_week;
          bye_week = list_insert 1 (PStr chosen_week) bye_week;
          bye_week = list_insert 2 (PStr ''BYE'') bye_week;
          bye_week = list_insert 3 PNone bye_week;
          bye_week = list_insert 4 PNone bye_week
      in (case bye_data of
            [] \<Rightarrow> Inl IndexError
          | d0 # ds \<Rightarrow>
              (case ds of
                 [] \<Rightarrow> Inl IndexError
               | d1 # _ \<Rightarrow>
                   (let bye_week = list_insert 5 (PStr d0) bye_week;
                        bye_week = list_insert 6 (PStr (py_slice 1 (int (length d1) - 1) d1)) bye_week;
                        bye_week = list_insert 9 PNone bye_week
                    in Inr (bye_week @ [PInt 0])))))"

definition bye_branch :: "string \<Rightarrow> string \<Rightarrow> entry_element \<Rightarrow> py_error + pyval list option" where
  \<comment> \<open>the handler of \<^verbatim>\<open>NoSuchElementException\<close>; \<open>None\<close> is \<^verbatim>\<open>continue\<close> without a row\<close>
  "bye_branch chosen_year chosen_week i =
     (case bye_text i of
        None \<Rightarrow> Inr None
      | Some text \<Rightarrow>
          (case bye_week_row chosen_year chosen_week text of
             Inl e \<Rightarrow> Inl e
           | Inr row \<Rightarrow> Inr (Some row)))"

definition entry_row :: "string \<Rightarrow> string \<Rightarrow> entry_element \<Rightarrow> py_error + pyval list option" where
  \<comment> \<open>one iteration of the loop (scraper.py 344-385), up to the row it assigns\<close>
  "entry_row chosen_year chosen_week i =
     (case game i of
        None \<Rightarrow> bye_branch chosen_year chosen_week i
      | Some g \<Rightarrow>
          (case status_and_date_text g of
             None \<Rightarrow> bye_branch chosen_year chosen_week i
           | Some sad_text \<Rightarrow>
               (case get_game_status_date sad_text of
                  Inl e \<Rightarrow> Inl e
                | Inr sad_data \<Rightarrow>
                    (case score_text g of
                       None \<Rightarrow> bye_branch chosen_year chosen_week i
                     | Some sc_text \<Rightarrow>
                         (case get_score_data sc_text of
                            Inl e \<Rightarrow> Inl e
                          | Inr score_data \<Rightarrow>
                              Inr (Some ([PStr chosen_year, PStr chosen_week]
                                         @ map PStr sad_data @ score_data)))))))"

fun scores_byes_loop ::
  "string \<Rightarrow> string \<Rightarrow> entry_element list \<Rightarrow> pyval list list \<Rightarrow> py_error + pyval list list" where
  "scores_byes_loop chosen_year chosen_week [] df = Inr df"
| "scores_byes_loop chosen_year chosen_week (i # rest) df =
     (case entry_row chosen_year chosen_week i of
        Inl e \<Rightarrow> Inl e
      | Inr None \<Rightarrow> scores_byes_loop chosen_year chosen_week rest df
      | Inr (Some row) \<Rightarrow>
          (case df_append df row of
             Inl e \<Rightarrow> Inl e
           | Inr df' \<Rightarrow> scores_byes_loop chosen_year chosen_week rest df'))"

text \<open>
  Attempt \<open>k\<close> of \<^verbatim>\<open>get_game_week_data\<close> sees the page \<open>env\<close> describes at \<open>k\<close>: what the
  dropdowns do, whether the container whose class name marks the entries is found, and
  the elements of that class.
\<close>

record week_env =
  dropdowns :: "nat \<Rightarrow> nat \<Rightarrow> attempt_env"
  container_found :: "nat \<Rightarrow> bool"
  rendered :: "nat \<Rightarrow> entry_element list"

definition enough_elements_present :: "'a list \<Rightarrow> nat \<Rightarrow> py_error + 'a list" where
  \<comment> \<open>Modelled from the spec: \<^verbatim>\<open>custom_conditions.enough_elements_present\<close> is not in the
      sources. Section 4.2: the wait returns the elements once at least the expected
      number of them is observed, and times out otherwise.\<close>
  "enough_elements_present els n = (if n \<le> length els then Inr els else Inl TimeoutException)"

function get_game_week_data ::
  "week_env \<Rightarrow> nat \<Rightarrow> string \<Rightarrow> string \<Rightarrow> int \<Rightarrow> py_error + pyval list list option" where
  "get_game_week_data env k chosen_year chosen_week max_attempts =
     (case snd (select_year_and_week (dropdowns env k) 0 chosen_year chosen_week
                  default_max_attempts) of
        Inl e \<Rightarrow> Inl e
      | Inr _ \<Rightarrow>
          if \<not> container_found env k then Inl TimeoutException
          else (case enough_elements_present (rendered env k) (num_score_elements chosen_week) of
                  Inl e \<Rightarrow>
                    if e = TimeoutException
                    then (if max_attempts > 0
                          then get_game_week_data env (Suc k) chosen_year chosen_week
                                 (max_attempts - 1)
                          else Inr None)
                    else Inl e
                | Inr titles_scores_byes \<Rightarrow>
                    (case scores_byes_loop chosen_year chosen_week (drop 3 titles_scores_byes) [] of
                       Inl e \<Rightarrow> Inl e
                     | Inr df \<Rightarrow> Inr (Some df))))"
  by pat_completeness auto
termination
  by (relation "measure (\<lambda>(env, k, y, w, n). nat n)") auto

declare select_year_and_week.simps [simp del]

declare get_game_week_data.simps [simp del]

section \<open>Rows and example pages\<close>

text \<open>
  The win flags agree with the scores when \<^verbatim>\<open>int\<close> reads both scores, the away flag
  is 1 exactly for a greater away score and the home flag is 1 exactly for a greater home
  score. In a row, cells 7 and 11 are \<^verbatim>\<open>AwayScore\<close> and \<^verbatim>\<open>HomeScore\<close>, cells 8 and
  12 are \<^verbatim>\<open>AwayWin\<close> and \<^verbatim>\<open>HomeWin\<close>.
\<close>

definition flags_of :: "pyval \<Rightarrow> pyval \<Rightarrow> pyval \<Rightarrow> pyval \<Rightarrow> bool" where
  \<comment> \<open>\<open>flags_of away_score home_score away_win home_win\<close>\<close>
  "flags_of sa sh wa wh =
     (case py_int sa of
        Inl _ \<Rightarrow> False
      | Inr a \<Rightarrow>
          (case py_int sh of
             Inl _ \<Rightarrow> False
           | Inr h \<Rightarrow> wa = PInt (if a > h then 1 else 0) \<and> wh = PInt (if a < h then 1 else 0)))"

definition wins_follow_scores :: "pyval list \<Rightarrow> bool" where
  "wins_follow_scores row = flags_of (row ! 7) (row ! 11) (row ! 8) (row ! 12)"

definition header_element :: entry_element where
  \<comment> \<open>a title or banner: neither a game nor a bye inside\<close>
  "header_element = \<lparr> game = None, bye_text = None \<rparr>"

definition game_entry :: "string \<Rightarrow> string \<Rightarrow> entry_element" where
  "game_entry sad_text sc_text =
     \<lparr> game = Some \<lparr> status_and_date_text = Some sad_text, score_text = Some sc_text \<rparr>,
       bye_text = None \<rparr>"

definition bye_entry :: "string \<Rightarrow> entry_element" where
  "bye_entry text = \<lparr> game = None, bye_text = Some text \<rparr>"

definition steady_page :: "entry_element list \<Rightarrow> week_env" where
  \<comment> \<open>a page that is on the scores view, selects both dropdowns at once and shows three
      headers followed by the given entries\<close>
  "steady_page entries =
     \<lparr> dropdowns = (\<lambda>k j. \<lparr> on_scores_page = True, season_select = Selected,
                              week_select = Selected \<rparr>),
       container_found = (\<lambda>k. True),
       rendered = (\<lambda>k. [header_element, header_element, header_element] @ entries) \<rparr>"

definition always_stale :: "nat \<Rightarrow> attempt_env" where
  "always_stale k = \<lparr> on_scores_page = True, season_select = RaisesStale,
                      week_select = Selected \<rparr>"


section \<open>Properties of the status and date parser\<close>

lemma list_remove_remove1:
  "list_remove x xs = (if x \<in> set xs then Inr (remove1 x xs) else Inl ValueError)"
  by (induction xs) auto

lemma count_list_ge1: "(Suc 0 \<le> count_list xs x) = (x \<in> set xs)"
  by (induction xs) auto

lemma status_date_tokens_eq:
  "status_date_tokens toks =
     (if ''CANCELLED'' \<in> set toks then Inr [''CANCELLED'', ''CANCELLED'', ''CANCELLED'']
      else if ''-'' \<in> set toks then Inr (remove1 ''-'' toks) else Inl ValueError)"
  unfolding status_date_tokens_def list_remove_remove1
  using count_list_ge1 [of toks "''CANCELLED''"] by simp

lemma remove1_first_split:
  assumes "x \<in> set xs"
  shows "\<exists>pre post. xs = pre @ x # post \<and> x \<notin> set pre \<and> remove1 x xs = pre @ post"
proof -
  from assms obtain pre post where eq: "xs = pre @ x # post" and notin: "x \<notin> set pre"
    by (auto dest: split_list_first)
  from notin have "remove1 x (pre @ x # post) = pre @ post"
    by (simp add: remove1_append)
  with eq notin show ?thesis by blast
qed

text \<open>
  Claim C5. When the tokens of the status text contain \<^verbatim>\<open>CANCELLED\<close>,
  \<^verbatim>\<open>get_game_status_date\<close> returns the triple of three \<^verbatim>\<open>CANCELLED\<close>. Otherwise,
  when a \<^verbatim>\<open>-\<close> token is present, exactly one \<^verbatim>\<open>-\<close> (the first) is removed and the
  other tokens are returned in their order.
\<close>

theorem status_date_rule:
  "(''CANCELLED'' \<in> set (py_split text) \<longrightarrow>
      get_game_status_date text = Inr [''CANCELLED'', ''CANCELLED'', ''CANCELLED'']) \<and>
   (''CANCELLED'' \<notin> set (py_split text) \<and> ''-'' \<in> set (py_split text) \<longrightarrow>
      get_game_status_date text = Inr (remove1 ''-'' (py_split text)) \<and>
      (\<exists>pre post. py_split text = pre @ ''-'' # post \<and> ''-'' \<notin> set pre \<and>
         get_game_status_date text = Inr (pre @ post)))"
proof (intro conjI impI)
  assume "''CANCELLED'' \<in> set (py_split text)"
  then show "get_game_status_date text = Inr [''CANCELLED'', ''CANCELLED'', ''CANCELLED'']"
    unfolding get_game_status_date_def status_date_tokens_eq by (simp only: if_True)
next
  assume h: "''CANCELLED'' \<notin> set (py_split text) \<and> ''-'' \<in> set (py_split text)"
  then show r: "get_game_status_date text = Inr (remove1 ''-'' (py_split text))"
    unfolding get_game_status_date_def status_date_tokens_eq by (simp only: if_True if_False)
  from h have "''-'' \<in> set (py_split text)" by (rule conjunct2)
  from remove1_first_split [OF this]
  obtain pre post where p: "py_split text = pre @ ''-'' # post" "''-'' \<notin> set pre"
    "remove1 ''-'' (py_split text) = pre @ post"
    by (elim exE conjE)
  from r p(3) have "get_game_status_date text = Inr (pre @ post)" by (simp only:)
  with p(1,2) show "\<exists>pre post. py_split text = pre @ ''-'' # post \<and> ''-'' \<notin> set pre \<and>
         get_game_status_date text = Inr (pre @ post)"
    by blast
qed

theorem status_date_rule_witness:
  "get_game_status_date ''FINAL - SUN 12/01'' = Inr [''FINAL'', ''SUN'', ''12/01''] \<and>
   get_game_status_date ''CANCELLED - SUN 12/01'' = Inr [''CANCELLED'', ''CANCELLED'', ''CANCELLED'']"
proof -
  have a: "py_split ''FINAL - SUN 12/01'' = [''FINAL'', ''-'', ''SUN'', ''12/01'']"
    by code_simp
  have b: "py_split ''CANCELLED - SUN 12/01'' = [''CANCELLED'', ''-'', ''SUN'', ''12/01'']"
    by code_simp
  have "get_game_status_date ''FINAL - SUN 12/01'' = Inr (remove1 ''-'' (py_split ''FINAL - SUN 12/01''))"
    using status_date_rule [of "''FINAL - SUN 12/01''", THEN conjunct2, rule_format, THEN conjunct1]
    unfolding a by simp
  moreover have "get_game_status_date ''CANCELLED - SUN 12/01'' = Inr [''CANCELLED'', ''CANCELLED'', ''CANCELLED'']"
    using status_date_rule [of "''CANCELLED - SUN 12/01''", THEN conjunct1, rule_format]
    unfolding b by simp
  ultimately show ?thesis unfolding a by simp
qed

section \<open>The expected number of elements\<close>



section \<open>Properties of the score data\<close>



lemma merge_words_all_upper:
  "\<forall>t \<in> set suf. upper_initial t \<Longrightarrow> merge_words suf multi clean = Inr clean"
  by (induction suf arbitrary: multi) (auto simp: upper_initial_def split: list.splits)

lemma merge_words_append_upper:
  "\<forall>t \<in> set suf. upper_initial t \<Longrightarrow>
     merge_words (pre @ suf) multi clean = merge_words pre multi clean"
proof (induction pre arbitrary: multi clean)
  case Nil
  then show ?case by (simp add: merge_words_all_upper)
next
  case (Cons t pre)
  then show ?case by (cases t) simp_all
qed

text \<open>
  Claim C9. The name buffer of the merge loop is flushed only by a token that does not
  start with an uppercase letter. Tokens with an uppercase initial at the end of the
  sequence therefore leave no trace: the cleaned sequence is that of the tokens before
  them, and a sequence of such tokens only is cleaned to the empty sequence.
\<close>

theorem trailing_names_dropped:
  assumes "\<forall>t \<in> set suf. upper_initial t"
  shows "merge_words (pre @ suf) [] [] = merge_words pre [] [] \<and>
         merge_words suf [] [] = Inr []"
  using assms by (simp add: merge_words_append_upper merge_words_all_upper)

theorem trailing_names_dropped_witness:
  "merge_words ([''Chiefs'', ''24''] @ [''New'', ''England'']) [] [] = Inr [''Chiefs'', ''24''] \<and>
   merge_words [''New'', ''England''] [] [] = Inr []"
proof -
  have u: "\<forall>t \<in> set [''New'', ''England'']. upper_initial t"
    by (simp add: upper_initial_def py_isupper_def)
  have m: "merge_words [''Chiefs'', ''24''] [] [] = Inr [''Chiefs'', ''24'']"
    by code_simp
  show ?thesis
    using trailing_names_dropped [OF u, of "[''Chiefs'', ''24'']"] unfolding m by simp
qed

lemma scores_and_records_last:
  "length xs \<le> length ys \<Longrightarrow>
   \<exists>v'. scores_and_records xs ys v = Inr v' \<and>
     away_score v' = (if filter (\<lambda>p. py_isnumeric (fst p)) (zip xs ys) = [] then away_score v
                      else PStr (fst (last (filter (\<lambda>p. py_isnumeric (fst p)) (zip xs ys))))) \<and>
     home_score v' = (if filter (\<lambda>p. py_isnumeric (fst p)) (zip xs ys) = [] then home_score v
                      else PStr (snd (last (filter (\<lambda>p. py_isnumeric (fst p)) (zip xs ys)))))"
proof (induction xs arbitrary: ys v)
  case Nil
  then show ?case by simp
next
  case (Cons a xs)
  then obtain h hs where ys: "ys = h # hs" by (cases ys) auto
  with Cons.prems have len: "length xs \<le> length hs" by simp
  show ?case
  proof (cases "py_isnumeric a")
    case True
    from Cons.IH [OF len, of "v\<lparr>away_score := PStr a, home_score := PStr h\<rparr>"]
    show ?thesis using True ys by auto
  next
    case False
    from Cons.IH [OF len, of "v\<lparr>away_record := PStr a, home_record := PStr h\<rparr>"]
    show ?thesis using False ys by auto
  qed
qed

text \<open>
  Claim C10. In the loop over the remaining tokens, the pair consumed in an iteration is
  classified by its away token alone: a numeric away token stores both tokens as the
  scores, any other away token stores both as the records, whatever the home token is.
  When the home side is at least as long as the away side the loop ends without error
  and the scores are those of the last pair with a numeric away token (the initial ones
  when there is none).
\<close>

theorem pair_classified_by_away_token:
  "(py_isnumeric a \<longrightarrow>
      scores_and_records (a # as) (h # hs) v =
        scores_and_records as hs (v\<lparr>away_score := PStr a, home_score := PStr h\<rparr>)) \<and>
   (\<not> py_isnumeric a \<longrightarrow>
      scores_and_records (a # as) (h # hs) v =
        scores_and_records as hs (v\<lparr>away_record := PStr a, home_record := PStr h\<rparr>)) \<and>
   (length xs \<le> length ys \<longrightarrow>
      (\<exists>v'. scores_and_records xs ys v = Inr v' \<and>
         away_score v' = (if filter (\<lambda>p. py_isnumeric (fst p)) (zip xs ys) = [] then away_score v
                      else PStr (fst (last (filter (\<lambda>p. py_isnumeric (fst p)) (zip xs ys))))) \<and>
         home_score v' = (if filter (\<lambda>p. py_isnumeric (fst p)) (zip xs ys) = [] then home_score v
                      else PStr (snd (last (filter (\<lambda>p. py_isnumeric (fst p)) (zip xs ys)))))))"
  using scores_and_records_last [of xs ys v] by simp

theorem pair_classified_by_away_token_witness:
  "py_isnumeric ''24'' \<and> \<not> py_isnumeric ''11-2'' \<and>
   length [''10'', ''20''] \<le> length [''3'', ''7''] \<and>
   scores_and_records [''24'', ''11-2''] [''8-5'', ''17''] initial_vars =
     Inr (initial_vars\<lparr>away_score := PStr ''24'', home_score := PStr ''8-5'',
                        away_record := PStr ''11-2'', home_record := PStr ''17''\<rparr>) \<and>
   scores_and_records [''10'', ''20''] [''3'', ''7''] initial_vars =
     Inr (initial_vars\<lparr>away_score := PStr ''20'', home_score := PStr ''7''\<rparr>)"
proof -
  have n1: "py_isnumeric ''24''"
    by (simp add: py_isnumeric_def py_isnumeric_char_def)
  have n2: "\<not> py_isnumeric ''11-2''"
    by (simp add: py_isnumeric_def py_isnumeric_char_def)
  have n3: "py_isnumeric ''10''" "py_isnumeric ''20''"
    by (simp_all add: py_isnumeric_def py_isnumeric_char_def)
  note t = pair_classified_by_away_token
             [of "''24''" "[''11-2'']" "''8-5''" "[''17'']" initial_vars "[''10'', ''20'']" "[''3'', ''7'']"]
  from t n1 have s1: "scores_and_records [''24'', ''11-2''] [''8-5'', ''17''] initial_vars =
      scores_and_records [''11-2''] [''17'']
        (initial_vars\<lparr>away_score := PStr ''24'', home_score := PStr ''8-5''\<rparr>)"
    by (simp only: simp_thms)
  note u = pair_classified_by_away_token
             [of "''11-2''" "[]" "''17''" "[]"
                 "initial_vars\<lparr>away_score := PStr ''24'', home_score := PStr ''8-5''\<rparr>" "[]" "[]"]
  from u n2 have s2: "scores_and_records [''11-2''] [''17'']
        (initial_vars\<lparr>away_score := PStr ''24'', home_score := PStr ''8-5''\<rparr>) =
      scores_and_records [] []
        (initial_vars\<lparr>away_score := PStr ''24'', home_score := PStr ''8-5'',
                        away_record := PStr ''11-2'', home_record := PStr ''17''\<rparr>)"
    by (simp only: simp_thms)
  have s3: "scores_and_records [''10'', ''20''] [''3'', ''7''] initial_vars =
     Inr (initial_vars\<lparr>away_score := PStr ''20'', home_score := PStr ''7''\<rparr>)"
    using n3 by simp
  show ?thesis using n1 n2 s1 s2 s3 by simp
qed

section \<open>Properties of the navigation\<close>

lemma invocations_append: "invocations (xs @ ys) = invocations xs + invocations ys"
  by (simp add: invocations_def)

lemma invocations_tried:
  "invocations (open_if_needed a @ fst (select_both a y w)) = 1"
  by (simp add: invocations_def open_if_needed_def select_both_def)

lemma invocations_prints [simp]:
  "invocations (PrintSearching n # tr) = invocations tr"
  "invocations (PrintUnable # tr) = invocations tr"
  "invocations (PrintNotAnOption # tr) = invocations tr"
  "invocations [] = 0"
  by (simp_all add: invocations_def)

lemma stale_retry:
  assumes "snd (select_both (env k) y w) = RaisesStale" "n > 0"
  shows "select_year_and_week env k y w n =
           (open_if_needed (env k) @ fst (select_both (env k) y w) @ [PrintSearching n]
              @ fst (select_year_and_week env (Suc k) y w (n - 1)),
            snd (select_year_and_week env (Suc k) y w (n - 1)))"
  using assms by (subst select_year_and_week.simps) (simp add: Let_def)

lemma stale_exhausted:
  assumes "snd (select_both (env k) y w) = RaisesStale" "n \<le> 0"
  shows "select_year_and_week env k y w n =
           (open_if_needed (env k) @ fst (select_both (env k) y w) @ [PrintUnable], Inr ())"
  using assms by (subst select_year_and_week.simps) (simp add: Let_def)

lemma invocations_bound:
  "1 \<le> invocations (fst (select_year_and_week env k y w n)) \<and>
   invocations (fst (select_year_and_week env k y w n)) \<le> nat n + 1"
proof (induction env k y w n rule: select_year_and_week.induct)
  case (1 env k y w n)
  show ?case
  proof (cases "snd (select_both (env k) y w)")
    case Selected
    then show ?thesis
      by (subst (1 2) select_year_and_week.simps) (simp add: Let_def invocations_tried)
  next
    case RaisesStale
    show ?thesis
    proof (cases "n > 0")
      case True
      from "1.IH" [OF refl RaisesStale True]
      have ih: "1 \<le> invocations (fst (select_year_and_week env (Suc k) y w (n - 1)))"
        "invocations (fst (select_year_and_week env (Suc k) y w (n - 1))) \<le> nat (n - 1) + 1"
        by simp_all
      have "invocations (fst (select_year_and_week env k y w n)) =
              1 + invocations (fst (select_year_and_week env (Suc k) y w (n - 1)))"
        unfolding stale_retry [of env k y w n, OF RaisesStale True]
        using invocations_tried [of "env k" y w]
        by (simp add: invocations_append)
      with ih True show ?thesis by (simp add: nat_diff_distrib)
    next
      case False
      then have "n \<le> 0" by simp
      from stale_exhausted [of env k y w n, OF RaisesStale this] show ?thesis
        using invocations_tried [of "env k" y w] by (simp add: invocations_append)
    qed
  next
    case RaisesNoSuchElement
    then show ?thesis
      using invocations_tried [of "env k" y w]
      by (subst (1 2) select_year_and_week.simps) (simp add: Let_def invocations_append)
  next
    case RaisesTimeout
    then show ?thesis
      by (subst (1 2) select_year_and_week.simps) (simp add: Let_def invocations_tried)
  qed
qed

text \<open>
  Claim C6. When the selection reports a stale element, \<^verbatim>\<open>select_year_and_week\<close>
  with a budget \<open>n > 0\<close> prints the searching message and re-invokes itself with the
  same year and week and the budget \<open>n - 1\<close>; with no budget left it prints that the
  driver was unable to find the options and returns. Every call performs at least one
  and at most \<open>n + 1\<close> invocations, so the recursion ends; the default budget is 5.
\<close>

theorem retry_bounded:
  "(snd (select_both (env k) y w) = RaisesStale \<and> n > 0 \<longrightarrow>
      select_year_and_week env k y w n =
        (open_if_needed (env k) @ fst (select_both (env k) y w) @ [PrintSearching n]
           @ fst (select_year_and_week env (Suc k) y w (n - 1)),
         snd (select_year_and_week env (Suc k) y w (n - 1)))) \<and>
   (snd (select_both (env k) y w) = RaisesStale \<and> n \<le> 0 \<longrightarrow>
      select_year_and_week env k y w n =
        (open_if_needed (env k) @ fst (select_both (env k) y w) @ [PrintUnable], Inr ())) \<and>
   1 \<le> invocations (fst (select_year_and_week env k y w n)) \<and>
   invocations (fst (select_year_and_week env k y w n)) \<le> nat n + 1 \<and>
   default_max_attempts = 5"
proof (intro conjI impI)
  assume "snd (select_both (env k) y w) = RaisesStale \<and> n > 0"
  then show "select_year_and_week env k y w n =
        (open_if_needed (env k) @ fst (select_both (env k) y w) @ [PrintSearching n]
           @ fst (select_year_and_week env (Suc k) y w (n - 1)),
         snd (select_year_and_week env (Suc k) y w (n - 1)))"
    using stale_retry [of env k y w n] by (simp only:)
next
  assume "snd (select_both (env k) y w) = RaisesStale \<and> n \<le> 0"
  then show "select_year_and_week env k y w n =
        (open_if_needed (env k) @ fst (select_both (env k) y w) @ [PrintUnable], Inr ())"
    using stale_exhausted [of env k y w n] by (simp only:)
next
  show "1 \<le> invocations (fst (select_year_and_week env k y w n))"
    using invocations_bound [of env k y w n] by (rule conjunct1)
next
  show "invocations (fst (select_year_and_week env k y w n)) \<le> nat n + 1"
    using invocations_bound [of env k y w n] by (rule conjunct2)
next
  show "default_max_attempts = 5" by (simp add: default_max_attempts_def)
qed

lemma always_stale_run:
  "select_year_and_week always_stale 0 ''2023'' ''Week 1'' default_max_attempts =
     ([SelectSeason ''2023'', PrintSearching 5, SelectSeason ''2023'', PrintSearching 4,
       SelectSeason ''2023'', PrintSearching 3, SelectSeason ''2023'', PrintSearching 2,
       SelectSeason ''2023'', PrintSearching 1, SelectSeason ''2023'', PrintUnable], Inr ())"
  by code_simp

theorem retry_bounded_witness:
  "select_year_and_week always_stale 0 ''2023'' ''Week 1'' 5 =
     (SelectSeason ''2023'' # PrintSearching 5 #
        fst (select_year_and_week always_stale (Suc 0) ''2023'' ''Week 1'' 4),
      snd (select_year_and_week always_stale (Suc 0) ''2023'' ''Week 1'' 4)) \<and>
   select_year_and_week always_stale 5 ''2023'' ''Week 1'' 0 =
     ([SelectSeason ''2023'', PrintUnable], Inr ()) \<and>
   invocations (fst (select_year_and_week always_stale 0 ''2023'' ''Week 1'' 5)) \<le> 6"
proof -
  have st: "\<And>k. snd (select_both (always_stale k) ''2023'' ''Week 1'') = RaisesStale"
    by (simp add: always_stale_def select_both_def)
  have tr: "\<And>k. open_if_needed (always_stale k) = []"
    "\<And>k. fst (select_both (always_stale k) ''2023'' ''Week 1'') = [SelectSeason ''2023'']"
    by (simp_all add: always_stale_def select_both_def open_if_needed_def)
  note r0 = retry_bounded [of always_stale 0 "''2023''" "''Week 1''" 5]
  note r5 = retry_bounded [of always_stale 5 "''2023''" "''Week 1''" 0]
  have a: "select_year_and_week always_stale 0 ''2023'' ''Week 1'' 5 =
     (SelectSeason ''2023'' # PrintSearching 5 #
        fst (select_year_and_week always_stale (Suc 0) ''2023'' ''Week 1'' 4),
      snd (select_year_and_week always_stale (Suc 0) ''2023'' ''Week 1'' 4))"
    using r0 [THEN conjunct1, rule_format] st [of 0] by (simp add: tr)
  have b: "select_year_and_week always_stale 5 ''2023'' ''Week 1'' 0 =
     ([SelectSeason ''2023'', PrintUnable], Inr ())"
    using r5 [THEN conjunct2, THEN conjunct1, rule_format] st [of 5] by (simp add: tr)
  have c: "invocations (fst (select_year_and_week always_stale 0 ''2023'' ''Week 1'' 5)) \<le> 6"
    using r0 [THEN conjunct2, THEN conjunct2, THEN conjunct2, THEN conjunct1] by simp
  from a b c show ?thesis by (intro conjI)
qed



section \<open>Properties of the extraction of a week\<close>

lemma scores_byes_loop_append:
  "scores_byes_loop y w (pre @ rest) df =
     (case scores_byes_loop y w pre df of
        Inl e \<Rightarrow> Inl e
      | Inr df' \<Rightarrow> scores_byes_loop y w rest df')"
  by (induction pre arbitrary: df) (auto split: sum.splits option.splits)

lemma entry_row_malformed:
  assumes "game i = Some g" "status_and_date_text g = Some text"
    and "''CANCELLED'' \<notin> set (py_split text)" "''-'' \<notin> set (py_split text)"
  shows "entry_row y w i = Inl ValueError"
proof -
  from assms(3,4) have "get_game_status_date text = Inl ValueError"
    unfolding get_game_status_date_def status_date_tokens_eq by (simp only: if_False)
  with assms(1,2) show ?thesis by (simp add: entry_row_def)
qed

lemma get_game_week_data_rendered:
  assumes "snd (select_year_and_week (dropdowns env k) 0 y w default_max_attempts) = Inr ()"
    and "container_found env k" and "num_score_elements w \<le> length (rendered env k)"
  shows "get_game_week_data env k y w n =
           (case scores_byes_loop y w (drop 3 (rendered env k)) [] of
              Inl e \<Rightarrow> Inl e
            | Inr df \<Rightarrow> Inr (Some df))"
  using assms
  by (subst get_game_week_data.simps) (simp add: enough_elements_present_def)

text \<open>
  Claim C2, as amended. An entry whose status text has neither a \<^verbatim>\<open>CANCELLED\<close> nor a
  \<^verbatim>\<open>-\<close> token makes \<^verbatim>\<open>get_game_status_date\<close> raise ValueError. The handler
  of the loop catches \<^verbatim>\<open>NoSuchElementException\<close> only, so the error leaves
  \<^verbatim>\<open>get_game_week_data\<close>: when the entries before it were processed without error,
  the call fails with ValueError and returns no rows, whatever entries follow.
\<close>

theorem malformed_entry_is_fatal:
  assumes "snd (select_year_and_week (dropdowns env k) 0 y w default_max_attempts) = Inr ()"
    and "container_found env k" and "num_score_elements w \<le> length (rendered env k)"
    and "drop 3 (rendered env k) = pre @ i # post"
    and "scores_byes_loop y w pre [] = Inr df"
    and "game i = Some g" and "status_and_date_text g = Some text"
    and "''CANCELLED'' \<notin> set (py_split text)" and "''-'' \<notin> set (py_split text)"
  shows "entry_row y w i = Inl ValueError \<and> get_game_week_data env k y w n = Inl ValueError"
proof -
  have e: "entry_row y w i = Inl ValueError"
    using assms(6-9) by (rule entry_row_malformed)
  have "scores_byes_loop y w (pre @ i # post) [] = Inl ValueError"
    unfolding scores_byes_loop_append using assms(5) e by simp
  with assms(4) have "scores_byes_loop y w (drop 3 (rendered env k)) [] = Inl ValueError"
    by (simp only:)
  with get_game_week_data_rendered [of env k y w n, OF assms(1-3)] e
  show ?thesis by simp
qed

theorem malformed_entry_is_fatal_witness:
  "get_game_week_data
     (steady_page [game_entry ''FINAL - SUN 12/01'' ''Chiefs 24 Patriots 17'',
                   game_entry ''FINAL SUN 12/01'' ''Bills 20 Jets 3'',
                   game_entry ''FINAL - MON 12/02'' ''Rams 7 Lions 10''])
     0 ''2023'' ''Super Bowl'' 5 = Inl ValueError"
proof -
  let ?good = "game_entry ''FINAL - SUN 12/01'' ''Chiefs 24 Patriots 17''"
  let ?bad = "game_entry ''FINAL SUN 12/01'' ''Bills 20 Jets 3''"
  let ?last = "game_entry ''FINAL - MON 12/02'' ''Rams 7 Lions 10''"
  let ?env = "steady_page [?good, ?bad, ?last]"
  have h1: "snd (select_year_and_week (dropdowns ?env 0) 0 ''2023'' ''Super Bowl''
                   default_max_attempts) = Inr ()"
    by code_simp
  have h2: "container_found ?env 0"
    by (simp add: steady_page_def)
  have h3: "num_score_elements ''Super Bowl'' \<le> length (rendered ?env 0)"
    by (simp add: steady_page_def num_score_elements_def)
  have h4: "drop 3 (rendered ?env 0) = [?good] @ ?bad # [?last]"
    by (simp add: steady_page_def)
  have h5: "scores_byes_loop ''2023'' ''Super Bowl'' [?good] [] =
              Inr [[PStr ''2023'', PStr ''Super Bowl'', PStr ''FINAL'', PStr ''SUN'',
                    PStr ''12/01'', PStr ''Chiefs'', PNaN, PStr ''24'', PInt 1,
                    PStr ''Patriots'', PNaN, PStr ''17'', PInt 0, PNaN, PNaN, PInt 0]]"
    by code_simp
  have h6: "game ?bad = Some \<lparr> status_and_date_text = Some ''FINAL SUN 12/01'',
                                score_text = Some ''Bills 20 Jets 3'' \<rparr>"
    by (simp add: game_entry_def)
  have h7: "status_and_date_text \<lparr> status_and_date_text = Some ''FINAL SUN 12/01'',
                                   score_text = Some ''Bills 20 Jets 3'' \<rparr>
              = Some ''FINAL SUN 12/01''"
    by simp
  have sp: "py_split ''FINAL SUN 12/01'' = [''FINAL'', ''SUN'', ''12/01'']"
    by code_simp
  have h8: "''CANCELLED'' \<notin> set (py_split ''FINAL SUN 12/01'')"
    unfolding sp by simp
  have h9: "''-'' \<notin> set (py_split ''FINAL SUN 12/01'')"
    unfolding sp by simp
  from malformed_entry_is_fatal [of ?env 0 "''2023''" "''Super Bowl''" "[?good]" ?bad "[?last]",
         OF h1 h2 h3 h4 h5 h6 h7 h8 h9, of 5]
  show ?thesis by (rule conjunct2)
qed

text \<open>
  The claim as stated fails: a week whose first entry has no separator token gives
  ValueError, although the entry after it alone gives a row.
\<close>

theorem malformed_entry_not_skipped:
  "get_game_week_data
     (steady_page [game_entry ''FINAL SUN 12/01'' ''Bills 20 Jets 3'',
                   game_entry ''FINAL - SUN 12/01'' ''Chiefs 24 Patriots 17''])
     0 ''2023'' ''Super Bowl'' 5 = Inl ValueError \<and>
   get_game_week_data
     (steady_page [game_entry ''FINAL - SUN 12/01'' ''Chiefs 24 Patriots 17''])
     0 ''2023'' ''Super Bowl'' 5 =
     Inr (Some [[PStr ''2023'', PStr ''Super Bowl'', PStr ''FINAL'', PStr ''SUN'',
                 PStr ''12/01'', PStr ''Chiefs'', PNaN, PStr ''24'', PInt 1,
                 PStr ''Patriots'', PNaN, PStr ''17'', PInt 0, PNaN, PNaN, PInt 0]])"
  by code_simp

section \<open>The rows of a week\<close>

lemma bye_week_row_cells:
  "bye_week_row y w text =
     (case py_split text of
        [] \<Rightarrow> Inl IndexError
      | d0 # ds \<Rightarrow>
          (case ds of
             [] \<Rightarrow> Inl IndexError
           | d1 # _ \<Rightarrow>
               Inr [PStr y, PStr w, PStr ''BYE'', PNone, PNone, PStr d0,
                    PStr (py_slice 1 (int (length d1) - 1) d1),
                    PNaN, PNaN, PNone, PNaN, PNaN, PNaN, PNaN, PNaN, PInt 0]))"
  by (simp add: bye_week_row_def list_insert_def Let_def eval_nat_numeral
           split: list.splits)

lemma postseason_check_wins:
  "postseason_check a h v = Inr (a', h', v') \<Longrightarrow>
     away_win v' = away_win v \<and> home_win v' = home_win v"
  by (auto simp: postseason_check_def split: list.splits if_splits)

lemma team_names_wins:
  "team_names a h v = Inr (a', h', v') \<Longrightarrow>
     away_win v' = away_win v \<and> home_win v' = home_win v"
  by (auto simp: team_names_def split: list.splits)

lemma scores_and_records_wins:
  "scores_and_records xs ys v = Inr v' \<Longrightarrow>
     away_win v' = away_win v \<and> home_win v' = home_win v"
proof (induction xs arbitrary: ys v)
  case Nil
  then show ?case by simp
next
  case (Cons a xs)
  then show ?case
    by (cases ys) (auto split: if_splits dest!: Cons.IH)
qed

lemma win_check_flags:
  assumes "win_check v = Inr v'" "away_win v = PInt 0" "home_win v = PInt 0"
  shows "flags_of (away_score v') (home_score v') (away_win v') (home_win v')"
  using assms by (auto simp: win_check_def flags_of_def split: sum.splits if_splits)

lemma score_data_tokens_flags:
  assumes "score_data_tokens toks = Inr sd"
  shows "length sd = 11 \<and> flags_of (sd ! 2) (sd ! 6) (sd ! 3) (sd ! 7)"
proof -
  from assms obtain clean a1 h1 v1 a2 h2 v2 v3 v4 where
    p: "postseason_check (take (length clean div 2) clean) (drop (length clean div 2) clean)
          initial_vars = Inr (a1, h1, v1)"
    and t: "team_names a1 h1 v1 = Inr (a2, h2, v2)"
    and s: "scores_and_records a2 h2 v2 = Inr v3"
    and c: "win_check v3 = Inr v4"
    and sd: "sd = organized_game_data v4"
    by (auto simp: score_data_tokens_def Let_def split: sum.splits prod.splits)
  have "away_win v3 = PInt 0" "home_win v3 = PInt 0"
    using postseason_check_wins [OF p] team_names_wins [OF t] scores_and_records_wins [OF s]
    by (simp_all add: initial_vars_def)
  from win_check_flags [OF c this] sd show ?thesis
    by (simp add: organized_game_data_def)
qed

lemma wins_follow_scores_game_row:
  assumes "length sad = 3" "length sd = 11" "flags_of (sd ! 2) (sd ! 6) (sd ! 3) (sd ! 7)"
  shows "wins_follow_scores ([PStr y, PStr w] @ map PStr sad @ sd)"
proof -
  from assms(1) obtain s0 s1 s2 where sad: "sad = [s0, s1, s2]"
    by (auto simp: length_Suc_conv eval_nat_numeral)
  have idx: "([PStr y, PStr w] @ map PStr sad @ sd) ! 7 = sd ! 2"
    "([PStr y, PStr w] @ map PStr sad @ sd) ! 11 = sd ! 6"
    "([PStr y, PStr w] @ map PStr sad @ sd) ! 8 = sd ! 3"
    "([PStr y, PStr w] @ map PStr sad @ sd) ! 12 = sd ! 7"
    unfolding sad by (simp_all add: nth_append)
  show ?thesis
    using assms(3) unfolding wins_follow_scores_def idx .
qed

lemma entry_row_flags:
  assumes "entry_row y w i = Inr (Some row)" "length row = 16"
  shows "(row ! 2 = PStr ''BYE'' \<and> row ! 7 = PNaN \<and> row ! 8 = PNaN \<and> row ! 12 = PNaN) \<or>
         wins_follow_scores row"
proof (cases "\<exists>text. bye_week_row y w text = Inr row")
  case True
  then obtain t where "bye_week_row y w t = Inr row" by (elim exE)
  then show ?thesis
    unfolding bye_week_row_cells by (auto split: list.splits)
next
  case False
  with assms(1) obtain st sc sad sd where
    sad: "get_game_status_date st = Inr sad" and sd: "get_score_data sc = Inr sd"
    and row: "row = [PStr y, PStr w] @ map PStr sad @ sd"
    by (auto simp: entry_row_def bye_branch_def split: option.splits sum.splits)
  from sd have f: "length sd = 11" "flags_of (sd ! 2) (sd ! 6) (sd ! 3) (sd ! 7)"
    using score_data_tokens_flags unfolding get_score_data_def by blast+
  with assms(2) row have "length sad = 3" by simp
  from wins_follow_scores_game_row [OF this f] row show ?thesis by simp
qed

lemma scores_byes_loop_rows:
  assumes "scores_byes_loop y w es df0 = Inr df"
    and "\<forall>r \<in> set df0. length r = 16 \<and>
           ((r ! 2 = PStr ''BYE'' \<and> r ! 7 = PNaN \<and> r ! 8 = PNaN \<and> r ! 12 = PNaN) \<or>
            wins_follow_scores r)"
  shows "\<forall>r \<in> set df. length r = 16 \<and>
           ((r ! 2 = PStr ''BYE'' \<and> r ! 7 = PNaN \<and> r ! 8 = PNaN \<and> r ! 12 = PNaN) \<or>
            wins_follow_scores r)"
  using assms
proof (induction es arbitrary: df0)
  case Nil
  then show ?case by simp
next
  case (Cons i es)
  show ?case
  proof (cases "entry_row y w i")
    case (Inl e)
    with Cons.prems(1) show ?thesis by simp
  next
    case (Inr r)
    show ?thesis
    proof (cases r)
      case None
      with Inr Cons.prems have "scores_byes_loop y w es df0 = Inr df" by simp
      from Cons.IH [OF this Cons.prems(2)] show ?thesis .
    next
      case (Some row)
      with Inr Cons.prems(1) have len: "length row = 16"
        and rest: "scores_byes_loop y w es (df0 @ [row]) = Inr df"
        by (auto simp: df_append_def columns_def split: if_splits)
      from Inr Some have "entry_row y w i = Inr (Some row)" by simp
      from entry_row_flags [OF this len] len Cons.prems(2)
      have "\<forall>r \<in> set (df0 @ [row]). length r = 16 \<and>
           ((r ! 2 = PStr ''BYE'' \<and> r ! 7 = PNaN \<and> r ! 8 = PNaN \<and> r ! 12 = PNaN) \<or>
            wins_follow_scores r)"
        by auto
      from Cons.IH [OF rest this] show ?thesis .
    qed
  qed
qed

lemma get_game_week_data_loop:
  "get_game_week_data env k y w n = Inr (Some df) \<Longrightarrow>
     \<exists>k'. scores_byes_loop y w (drop 3 (rendered env k')) [] = Inr df"
proof (induction env k y w n rule: get_game_week_data.induct)
  case (1 env k y w n)
  from "1.prems" show ?case
    apply (subst (asm) get_game_week_data.simps)
    apply (auto simp: enough_elements_present_def split: sum.splits if_splits dest: "1.IH")
    done
qed

lemma entry_row_cancelled:
  assumes "''CANCELLED'' \<in> set (py_split st)" "get_score_data sc = Inr sd"
  shows "entry_row y w (game_entry st sc) =
           Inr (Some ([PStr y, PStr w, PStr ''CANCELLED'', PStr ''CANCELLED'',
                       PStr ''CANCELLED''] @ sd))"
proof -
  from assms(1) have "get_game_status_date st = Inr [''CANCELLED'', ''CANCELLED'', ''CANCELLED'']"
    unfolding get_game_status_date_def status_date_tokens_eq by (simp only: if_True)
  with assms(2) show ?thesis by (simp add: entry_row_def game_entry_def)
qed

text \<open>
  Claim C3, as amended. Every row that \<^verbatim>\<open>get_game_week_data\<close> returns has 16 cells
  and is either the row of a bye (status \<^verbatim>\<open>BYE\<close>, no score and no win flags) or a game
  row whose win flags follow its scores: the away flag is 1 exactly when the away score
  is greater, the home flag is 1 exactly when the home score is greater, and both are 0
  for equal scores, so at most one flag is 1. A cancelled game is a game row like the
  others: after the three \<^verbatim>\<open>CANCELLED\<close> cells it holds whatever \<^verbatim>\<open>get_score_data\<close>
  returns for the score text of the entry.
\<close>

theorem rows_win_flags:
  assumes "get_game_week_data env k y w n = Inr (Some df)" and "row \<in> set df"
  shows "length row = 16 \<and>
         ((row ! 2 = PStr ''BYE'' \<and> row ! 7 = PNaN \<and> row ! 8 = PNaN \<and> row ! 12 = PNaN) \<or>
          wins_follow_scores row) \<and>
         (''CANCELLED'' \<in> set (py_split st) \<and> get_score_data sc = Inr sd \<longrightarrow>
            entry_row y w (game_entry st sc) =
              Inr (Some ([PStr y, PStr w, PStr ''CANCELLED'', PStr ''CANCELLED'',
                          PStr ''CANCELLED''] @ sd)))"
proof -
  from get_game_week_data_loop [OF assms(1)]
  obtain k' where l: "scores_byes_loop y w (drop 3 (rendered env k')) [] = Inr df"
    by (elim exE)
  have "\<forall>r \<in> set ([] :: pyval list list). length r = 16 \<and>
           ((r ! 2 = PStr ''BYE'' \<and> r ! 7 = PNaN \<and> r ! 8 = PNaN \<and> r ! 12 = PNaN) \<or>
            wins_follow_scores r)"
    by simp
  from scores_byes_loop_rows [OF l this] assms(2)
  have "length row = 16 \<and>
         ((row ! 2 = PStr ''BYE'' \<and> row ! 7 = PNaN \<and> row ! 8 = PNaN \<and> row ! 12 = PNaN) \<or>
          wins_follow_scores row)"
    by (rule bspec)
  with entry_row_cancelled [of st sc sd y w] show ?thesis by simp
qed

text \<open>
  The claim as stated fails: a game that ended 17 to 17 gives a row with both win flags
  0 and status \<^verbatim>\<open>FINAL\<close>, and a cancelled game gives a row with team names and records.
\<close>

theorem tie_and_cancelled_rows:
  "get_game_week_data
     (steady_page [game_entry ''FINAL - SUN 02/12'' ''Chiefs 17 Eagles 17'',
                   game_entry ''CANCELLED'' ''Bills 10-2 Bengals 11-4''])
     0 ''2023'' ''Super Bowl'' 5 =
   Inr (Some
     [[PStr ''2023'', PStr ''Super Bowl'', PStr ''FINAL'', PStr ''SUN'', PStr ''02/12'',
       PStr ''Chiefs'', PNaN, PStr ''17'', PInt 0,
       PStr ''Eagles'', PNaN, PStr ''17'', PInt 0, PNaN, PNaN, PInt 0],
      [PStr ''2023'', PStr ''Super Bowl'', PStr ''CANCELLED'', PStr ''CANCELLED'',
       PStr ''CANCELLED'', PStr ''Bills'', PStr ''10-2'', PInt 0, PInt 0,
       PStr ''Bengals'', PStr ''11-4'', PInt 0, PInt 0, PNaN, PNaN, PInt 0]])"
  by code_simp

theorem rows_win_flags_witness:
  "wins_follow_scores
     [PStr ''2023'', PStr ''Super Bowl'', PStr ''FINAL'', PStr ''SUN'', PStr ''12/01'',
      PStr ''Chiefs'', PNaN, PStr ''24'', PInt 1,
      PStr ''Patriots'', PNaN, PStr ''17'', PInt 0, PNaN, PNaN, PInt 0] \<and>
   entry_row ''2023'' ''Super Bowl'' (game_entry ''CANCELLED'' ''Bills 10-2 Bengals 11-4'') =
     Inr (Some [PStr ''2023'', PStr ''Super Bowl'', PStr ''CANCELLED'', PStr ''CANCELLED'',
                PStr ''CANCELLED'', PStr ''Bills'', PStr ''10-2'', PInt 0, PInt 0,
                PStr ''Bengals'', PStr ''11-4'', PInt 0, PInt 0, PNaN, PNaN, PInt 0])"
proof -
  let ?row = "[PStr ''2023'', PStr ''Super Bowl'', PStr ''FINAL'', PStr ''SUN'', PStr ''12/01'',
      PStr ''Chiefs'', PNaN, PStr ''24'', PInt 1,
      PStr ''Patriots'', PNaN, PStr ''17'', PInt 0, PNaN, PNaN, PInt 0]"
  have h1: "get_game_week_data
              (steady_page [game_entry ''FINAL - SUN 12/01'' ''Chiefs 24 Patriots 17''])
              0 ''2023'' ''Super Bowl'' 5 = Inr (Some [?row])"
    by code_simp
  have h2: "?row \<in> set [?row]" by simp
  have h3: "''CANCELLED'' \<in> set (py_split ''CANCELLED'')" by code_simp
  have h4: "get_score_data ''Bills 10-2 Bengals 11-4'' =
              Inr [PStr ''Bills'', PStr ''10-2'', PInt 0, PInt 0,
                   PStr ''Bengals'', PStr ''11-4'', PInt 0, PInt 0, PNaN, PNaN, PInt 0]"
    by code_simp
  note t = rows_win_flags [OF h1 h2, of "''CANCELLED''" "''Bills 10-2 Bengals 11-4''"
             "[PStr ''Bills'', PStr ''10-2'', PInt 0, PInt 0,
               PStr ''Bengals'', PStr ''11-4'', PInt 0, PInt 0, PNaN, PNaN, PInt 0]"]
  from t have a: "wins_follow_scores ?row" by simp
  from t h3 h4 have b: "entry_row ''2023'' ''Super Bowl''
        (game_entry ''CANCELLED'' ''Bills 10-2 Bengals 11-4'') =
     Inr (Some [PStr ''2023'', PStr ''Super Bowl'', PStr ''CANCELLED'', PStr ''CANCELLED'',
                PStr ''CANCELLED'', PStr ''Bills'', PStr ''10-2'', PInt 0, PInt 0,
                PStr ''Bengals'', PStr ''11-4'', PInt 0, PInt 0, PNaN, PNaN, PInt 0])"
    by simp
  from a b show ?thesis by (intro conjI)
qed

text \<open>
  Claim C4. For the bye text \<^verbatim>\<open>Buffalo Bills (10-2)\<close> the row that the loop builds has
  the team \<^verbatim>\<open>Buffalo\<close> and the record \<^verbatim>\<open>ill\<close>: the text is split at every blank, the
  first token is taken as the name and the second one is stripped of its first and last
  character. With a name of one word the row is the expected one.
\<close>

theorem bye_two_word_name:
  "entry_row ''2023'' ''Week 7'' (bye_entry ''Buffalo Bills (10-2)'') =
     Inr (Some [PStr ''2023'', PStr ''Week 7'', PStr ''BYE'', PNone, PNone,
                PStr ''Buffalo'', PStr ''ill'', PNaN, PNaN, PNone,
                PNaN, PNaN, PNaN, PNaN, PNaN, PInt 0]) \<and>
   entry_row ''2023'' ''Week 7'' (bye_entry ''Bills (10-2)'') =
     Inr (Some [PStr ''2023'', PStr ''Week 7'', PStr ''BYE'', PNone, PNone,
                PStr ''Bills'', PStr ''10-2'', PNaN, PNaN, PNone,
                PNaN, PNaN, PNaN, PNaN, PNaN, PInt 0])"
  by code_simp

end
